theory Spec2Isabelle
  imports Complex_Main "HOL-Library.FuncSet"
begin

section \<open>The synthetic RSD dataset generator\<close>

text \<open>
  The generator (\<^verbatim>\<open>generate_rsd_dataset.py\<close>) is one script that fills the columns of a
  table of \<open>n\<close> rows, one after the other.  The embedding follows the script part by part.

  \<^item> The categorical columns are drawn from fixed lists of strings; each list is a datatype.
  \<^item> The float columns hold reals.  The scores of Part 2 add a random draw to constants
    and are taken exactly.  The decision of Part 3 compares a computed score with a
    threshold, and there the arithmetic of the script is binary64: every operation of
    \<open>approve_score\<close> and every literal it reads is rounded by \<open>float64\<close>.
  \<^item> The script reads the global generator of \<^verbatim>\<open>np.random\<close>.  The values it returns are
    inputs of the model: the record \<open>draws\<close> holds, for one row, the component of every
    array the script draws, in the order of the script, and the sample of rows for review
    is computed from the integers \<open>js\<close> that the shuffle inside \<^verbatim>\<open>np.random.choice\<close> draws.
\<close>

subsection \<open>Part 1: the value lists\<close>

datatype country = Syria | Afghanistan | Sudan | Myanmar | Eritrea | Venezuela | Iraq | Somalia

datatype gender = Male | Female | Non_binary

datatype education_level = Edu_None | Primary | Secondary | Tertiary

datatype language_level = Lang_None | Basic | Intermediate | Advanced | Fluent

datatype persecution_ground = Race | Religion | Nationality | Political_opinion | Social_group

datatype persecution_type = Violence | Detention | Threats | Sexual_violence | Discrimination

datatype decision = Approve | Deny

datatype appeal_result = Not_applicable | Overturned | Upheld

datatype bias_level = Bias_none | Moderate | Severe

subsection \<open>The random draws of one row\<close>

text \<open>
  \<open>draw_trauma\<close> is the outcome of \<^verbatim>\<open>np.random.binomial(1, p)\<close> for this row as a function of
  the rate \<open>p\<close> it is called with, and \<open>draw_bias\<close> the outcome of
  \<^verbatim>\<open>np.random.choice(["none", "moderate", "severe"], p=w)\<close> as a function of the weights
  \<open>w\<close>.  \<open>draw_appeal_outcome\<close> is the value of \<^verbatim>\<open>np.random.rand()\<close> in the appeal loop; the
  loop reads it only for a row that appealed.
\<close>

record draws =
  draw_country :: country
  draw_gender :: gender
  draw_age :: int
  draw_education :: education_level
  draw_language :: language_level
  draw_family_size :: int
  draw_camp_years :: int
  draw_ground :: persecution_ground
  draw_ptype :: persecution_type
  draw_nexus :: bool
  draw_state_protection :: real
  draw_relocation :: bool
  draw_trauma :: "real \<Rightarrow> bool"
  draw_base_cred :: real
  draw_noise :: real
  draw_integration :: real
  draw_flip :: real
  draw_base_time :: int
  draw_review_delay :: int
  draw_appeal_rand :: real
  draw_appeal_outcome :: real
  draw_bias :: "real list \<Rightarrow> bias_level"

subsection \<open>One row of the table\<close>

record row =
  id_col :: int
  country_of_origin :: country
  gender :: gender
  age :: int
  education_level :: education_level
  language_proficiency :: language_level
  family_size :: int
  prior_camp_years :: int
  persecution_ground :: persecution_ground
  persecution_type :: persecution_type
  nexus_established :: bool
  state_protection_score :: real
  internal_relocation_possible :: bool
  reported_trauma :: bool
  credibility_score :: real
  risk_score :: real
  risk_score_uncapped :: real
  integration_score :: real
  AI_decision :: decision
  human_reviewed :: bool
  human_override :: bool
  final_decision :: decision
  processing_time_days :: int
  appealed :: bool
  appeal_outcome :: appeal_result
  bias_flag :: bias_level

subsection \<open>Part 1: applicant inputs\<close>

text \<open>\<^verbatim>\<open>np.clip(a, a_min, a_max)\<close>.\<close>

definition clip :: "real \<Rightarrow> real \<Rightarrow> real \<Rightarrow> real" where
  "clip a a_min a_max = min (max a a_min) a_max"

text \<open>The two \<^verbatim>\<open>np.where\<close> steps that compute \<^verbatim>\<open>trauma_base\<close> (lines 74 to 81).\<close>

definition trauma_base :: "country \<Rightarrow> persecution_type \<Rightarrow> real" where
  "trauma_base c p =
     (let tb = (if c \<in> {Syria, Afghanistan, Eritrea, Somalia} then 0.65 else 0.40)
      in if p \<in> {Sexual_violence, Detention} then min (tb + 0.15) 0.85 else tb)"

subsection \<open>Part 2: scoring functions\<close>

fun language_map :: "language_level \<Rightarrow> real" where
  "language_map Lang_None = - 0.20"
| "language_map Basic = - 0.10"
| "language_map Intermediate = 0.0"
| "language_map Advanced = 0.05"
| "language_map Fluent = 0.10"

fun edu_map :: "education_level \<Rightarrow> real" where
  "edu_map Edu_None = - 0.10"
| "edu_map Primary = 0.0"
| "edu_map Secondary = 0.05"
| "edu_map Tertiary = 0.10"

fun risk_means :: "country \<Rightarrow> real" where
  "risk_means Syria = 0.85"
| "risk_means Afghanistan = 0.80"
| "risk_means Sudan = 0.75"
| "risk_means Myanmar = 0.70"
| "risk_means Eritrea = 0.70"
| "risk_means Venezuela = 0.55"
| "risk_means Iraq = 0.65"
| "risk_means Somalia = 0.78"

fun ptype_map :: "persecution_type \<Rightarrow> real" where
  "ptype_map Violence = 0.10"
| "ptype_map Detention = 0.05"
| "ptype_map Threats = 0.0"
| "ptype_map Sexual_violence = 0.15"
| "ptype_map Discrimination = - 0.05"

fun gender_map :: "gender \<Rightarrow> real" where
  "gender_map Male = 0.0"
| "gender_map Female = 0.08"
| "gender_map Non_binary = 0.06"

definition trauma_penalty :: "bool \<Rightarrow> real" where
  "trauma_penalty trauma = (if trauma then - 0.08 else 0.0)"

definition raw_risk :: "country \<Rightarrow> persecution_type \<Rightarrow> gender \<Rightarrow> real \<Rightarrow> real" where
  "raw_risk c p g noise = risk_means c + ptype_map p + gender_map g + noise"

definition integration_raw :: "real \<Rightarrow> int \<Rightarrow> real \<Rightarrow> real" where
  "integration_raw cred a u =
     0.4 * cred + 0.2 * (1 - real_of_int \<bar>a - 35\<bar> / 35) + 0.4 * u"

subsection \<open>Binary64 arithmetic\<close>

text \<open>
  \<open>float64 x\<close> is the double nearest to the real \<open>x\<close>, a tie going to the even
  significand: the value of the decimal literal \<open>x\<close>, and the result of one operation of
  the script whose exact result is \<open>x\<close>.  \<open>m\<close> is \<open>\<bar>x\<bar>\<close> in units of \<open>1 / 2 ^ 1074\<close>, the least
  positive double, rounded down.  A double has 53 significant bits, so the doubles around
  \<open>x\<close> are \<open>2 ^ (bit_length m - 53)\<close> units apart, and one unit apart below the normal
  range.  No value of the script comes near the largest double; overflow is not modelled.
\<close>

definition round_half_even :: "real \<Rightarrow> int" where
  "round_half_even y =
     (let f = \<lfloor>y\<rfloor>
      in if y - of_int f < 1 / 2 then f
         else if 1 / 2 < y - of_int f then f + 1
         else if even f then f else f + 1)"

fun bit_length :: "nat \<Rightarrow> nat" where
  "bit_length m = (if m = 0 then 0 else Suc (bit_length (m div 2)))"

declare bit_length.simps [simp del]

definition subnormal_bits :: nat where
  "subnormal_bits = 1074"

definition float64 :: "real \<Rightarrow> real" where
  "float64 x =
     (let m = nat \<lfloor>\<bar>x\<bar> * 2 ^ subnormal_bits\<rfloor>;
          ulp = 2 ^ (bit_length m - 53) / 2 ^ subnormal_bits
      in sgn x * (of_int (round_half_even (\<bar>x\<bar> / ulp)) * ulp))"

subsection \<open>Part 3: the decision rule\<close>

text \<open>
  Lines 143 to 148, operation by operation: four products, \<open>1 - state_protection_score\<close>,
  and three sums from left to right.  \<^verbatim>\<open>astype(float)\<close> turns the nexus into 1.0 or 0.0.
\<close>

definition approve_score :: "real \<Rightarrow> real \<Rightarrow> bool \<Rightarrow> real \<Rightarrow> real" where
  "approve_score risk cred nexus protection =
     float64 (float64 (float64
       (float64 (float64 0.45 * risk)
        + float64 (float64 0.30 * cred))
        + float64 (float64 0.15 * (if nexus then 1 else 0)))
        + float64 (float64 0.10 * float64 (1 - protection)))"

text \<open>Lines 153 to 159.  The literal \<open>0.50\<close> is a double as it stands.\<close>

definition AI_decision_of :: "real \<Rightarrow> real \<Rightarrow> bool \<Rightarrow> real \<Rightarrow> decision" where
  "AI_decision_of risk cred nexus protection =
     (if approve_score risk cred nexus protection > float64 0.62 \<and> cred > 0.50 \<and> nexus = True
      then Approve else Deny)"

subsection \<open>Part 4: human oversight\<close>

text \<open>
  \<^verbatim>\<open>size=int(0.10 * n)\<close>, then the column \<^verbatim>\<open>human_reviewed\<close>: all \<open>False\<close>, then \<open>True\<close> at
  the labels of \<^verbatim>\<open>reviewed_idx\<close>.  The labels are drawn from \<^verbatim>\<open>df.index\<close>, so each of them is
  a row of the table; for a label outside the index \<^verbatim>\<open>df.loc\<close> would raise, where the list
  update below leaves the column as it is.
\<close>

definition review_size :: "nat \<Rightarrow> nat" where
  "review_size n = nat \<lfloor>0.10 * real n\<rfloor>"

definition human_reviewed_col :: "nat \<Rightarrow> nat list \<Rightarrow> bool list" where
  "human_reviewed_col n reviewed_idx =
     foldl (\<lambda>col i. col[i := True]) (replicate n False) reviewed_idx"

text \<open>
  Line 172, \<^verbatim>\<open>np.random.choice(df.index, size=int(0.10 * n), replace=False)\<close>.  The index
  holds the labels \<open>0, \<dots>, n - 1\<close>.  Without replacement and without weights,
  \<^verbatim>\<open>np.random.choice\<close> returns the first \<open>size\<close> entries of \<^verbatim>\<open>permutation(n)\<close>, and that is
  \<^verbatim>\<open>arange(n)\<close> shuffled in place: for \<open>i = n - 1\<close> down to \<open>1\<close>, entry \<open>i\<close> is exchanged with
  entry \<open>j\<close>, a random integer of \<open>[0, i]\<close>.  \<open>js i\<close> is the integer drawn at step \<open>i\<close>; it is
  read modulo \<open>i + 1\<close>, so that every \<open>js\<close> is a run of the shuffle.  A \<open>size\<close> above \<open>n\<close>
  makes \<^verbatim>\<open>np.random.choice\<close> raise; \<open>int(0.10 * n)\<close> is never above \<open>n\<close>.
\<close>

definition swap :: "nat list \<Rightarrow> nat \<Rightarrow> nat \<Rightarrow> nat list" where
  "swap xs i j = xs[i := xs ! j, j := xs ! i]"

fun shuffle :: "nat \<Rightarrow> (nat \<Rightarrow> nat) \<Rightarrow> nat list \<Rightarrow> nat list" where
  "shuffle 0 js xs = xs"
| "shuffle (Suc i) js xs = shuffle i js (swap xs (Suc i) (js (Suc i) mod Suc (Suc i)))"

definition permutation :: "nat \<Rightarrow> (nat \<Rightarrow> nat) \<Rightarrow> nat list" where
  "permutation n js = shuffle (n - 1) js [0..<n]"

definition choice_without_replacement :: "nat \<Rightarrow> nat \<Rightarrow> (nat \<Rightarrow> nat) \<Rightarrow> nat list" where
  "choice_without_replacement n k js = take k (permutation n js)"

definition draw_reviewed_idx :: "nat \<Rightarrow> (nat \<Rightarrow> nat) \<Rightarrow> nat list" where
  "draw_reviewed_idx n js = choice_without_replacement n (review_size n) js"

text \<open>
  The runs of the shuffle of \<open>n\<close> entries: an integer of \<open>[0, i]\<close> for each step
  \<open>i = 1, \<dots>, n - 1\<close>, and nothing else.  They are equally likely when each integer is
  uniform on its interval and independent of the others.
\<close>

definition shuffle_draws :: "nat \<Rightarrow> (nat \<Rightarrow> nat) set" where
  "shuffle_draws n = PiE {1..<n} (\<lambda>i. {0..i})"

definition flip_mask :: "bool \<Rightarrow> real \<Rightarrow> bool" where
  "flip_mask reviewed u \<longleftrightarrow> reviewed \<and> u < 0.50"

text \<open>The lambda of line 183.\<close>

definition flip :: "decision \<Rightarrow> decision" where
  "flip x = (if x = Approve then Deny else Approve)"

definition final_decision_of :: "decision \<Rightarrow> bool \<Rightarrow> decision" where
  "final_decision_of ai override = (if override then flip ai else ai)"

definition review_delay :: "bool \<Rightarrow> int \<Rightarrow> int" where
  "review_delay reviewed delay = (if reviewed then delay else 0)"

subsection \<open>Part 5: appeals and bias audit\<close>

definition appealed_of :: "decision \<Rightarrow> real \<Rightarrow> bool" where
  "appealed_of final appeal_rand \<longleftrightarrow> final = Deny \<and> appeal_rand < 0.30"

text \<open>The body of the loop of lines 201 to 207.\<close>

definition appeal_outcomes :: "bool \<Rightarrow> real \<Rightarrow> appeal_result" where
  "appeal_outcomes has_appealed u =
     (if \<not> has_appealed then Not_applicable
      else if u < 0.40 then Overturned
      else Upheld)"

text \<open>The weights the loop of lines 214 to 220 passes to \<^verbatim>\<open>np.random.choice\<close>.\<close>

definition bias_weights :: "bool \<Rightarrow> real \<Rightarrow> bool \<Rightarrow> decision \<Rightarrow> real list" where
  "bias_weights trauma cred nexus final =
     (if trauma \<and> cred < 0.5 then [0.40, 0.40, 0.20]
      else if nexus \<and> final = Deny then [0.50, 0.35, 0.15]
      else [0.80, 0.15, 0.05])"

subsection \<open>The pipeline\<close>

text \<open>
  Row \<open>i\<close> (label \<open>i\<close> of the index, \<open>id = i + 1\<close>) from its draws and its entry of the
  column \<^verbatim>\<open>human_reviewed\<close>, in the order of the script.
\<close>

definition generate_row :: "nat \<Rightarrow> bool \<Rightarrow> draws \<Rightarrow> row" where
  "generate_row i reviewed d =
     (let protection = clip (draw_state_protection d) 0.05 1.0;
          trauma = draw_trauma d (trauma_base (draw_country d) (draw_ptype d));
          cred = clip (draw_base_cred d + language_map (draw_language d)
                       + edu_map (draw_education d) + trauma_penalty trauma) 0.0 1.0;
          raw = raw_risk (draw_country d) (draw_ptype d) (draw_gender d) (draw_noise d);
          risk = clip raw 0.0 1.0;
          integration = clip (integration_raw cred (draw_age d) (draw_integration d)) 0.0 1.0;
          ai = AI_decision_of risk cred (draw_nexus d) protection;
          override = flip_mask reviewed (draw_flip d);
          final = final_decision_of ai override;
          has_appealed = appealed_of final (draw_appeal_rand d)
      in \<lparr> id_col = int i + 1,
           country_of_origin = draw_country d,
           gender = draw_gender d,
           age = draw_age d,
           education_level = draw_education d,
           language_proficiency = draw_language d,
           family_size = draw_family_size d,
           prior_camp_years = draw_camp_years d,
           persecution_ground = draw_ground d,
           persecution_type = draw_ptype d,
           nexus_established = draw_nexus d,
           state_protection_score = protection,
           internal_relocation_possible = draw_relocation d,
           reported_trauma = trauma,
           credibility_score = cred,
           risk_score = risk,
           risk_score_uncapped = raw,
           integration_score = integration,
           AI_decision = ai,
           human_reviewed = reviewed,
           human_override = override,
           final_decision = final,
           processing_time_days = draw_base_time d + review_delay reviewed (draw_review_delay d),
           appealed = has_appealed,
           appeal_outcome = appeal_outcomes has_appealed (draw_appeal_outcome d),
           bias_flag = draw_bias d (bias_weights trauma cred (draw_nexus d) final) \<rparr>)"

text \<open>The table of \<open>n\<close> rows; \<open>ds i\<close> holds the draws of row \<open>i\<close>.\<close>

definition generate :: "nat \<Rightarrow> nat list \<Rightarrow> (nat \<Rightarrow> draws) \<Rightarrow> row list" where
  "generate n reviewed_idx ds =
     map (\<lambda>i. generate_row i (human_reviewed_col n reviewed_idx ! i) (ds i)) [0..<n]"

text \<open>The script fixes \<^verbatim>\<open>n = 500\<close> (line 38).\<close>

definition n_records :: nat where
  "n_records = 500"

text \<open>The whole script: the sample of line 172, then the table.\<close>

definition pipeline :: "nat \<Rightarrow> (nat \<Rightarrow> nat) \<Rightarrow> (nat \<Rightarrow> draws) \<Rightarrow> row list" where
  "pipeline n js ds = generate n (draw_reviewed_idx n js) ds"

definition dataset :: "(nat \<Rightarrow> nat) \<Rightarrow> (nat \<Rightarrow> draws) \<Rightarrow> row list" where
  "dataset js ds = pipeline n_records js ds"

text \<open>Draws of one concrete row, used to evaluate the pipeline.\<close>

definition example_draws :: draws where
  "example_draws =
     \<lparr> draw_country = Syria, draw_gender = Female, draw_age = 30,
       draw_education = Secondary, draw_language = Intermediate,
       draw_family_size = 3, draw_camp_years = 2,
       draw_ground = Religion, draw_ptype = Sexual_violence,
       draw_nexus = True, draw_state_protection = 0.3, draw_relocation = False,
       draw_trauma = (\<lambda>p. 0.5 < p), draw_base_cred = 0.65, draw_noise = 0.02,
       draw_integration = 0.5, draw_flip = 0.25, draw_base_time = 45,
       draw_review_delay = 30, draw_appeal_rand = 0.1, draw_appeal_outcome = 0.7,
       draw_bias = (\<lambda>w. if hd w < 0.45 then Moderate else Bias_none) \<rparr>"

text \<open>The same row with a lower draw of \<^verbatim>\<open>base_cred\<close>.\<close>

definition low_credibility_draws :: draws where
  "low_credibility_draws = example_draws\<lparr>draw_base_cred := 0.5\<rparr>"

text \<open>The same row with other draws for the columns the decision rule does not read.\<close>

definition relocating_draws :: draws where
  "relocating_draws =
     example_draws\<lparr>draw_age := 60, draw_family_size := 6, draw_camp_years := 9,
       draw_ground := Race, draw_relocation := True, draw_integration := 0.9\<rparr>"

text \<open>
  A row at the threshold of the decision rule: risk 0.5, and the doubles 0.6 and 0.35 for
  credibility and state protection.
\<close>

definition threshold_draws :: draws where
  "threshold_draws =
     example_draws\<lparr>draw_country := Venezuela, draw_gender := Male, draw_education := Primary,
       draw_ptype := Discrimination, draw_state_protection := float64 0.35,
       draw_trauma := (\<lambda>p. False), draw_base_cred := float64 0.6, draw_noise := 0\<rparr>"

text \<open>A row of low risk with a noise draw eleven standard deviations below its mean.\<close>

definition low_risk_draws :: draws where
  "low_risk_draws =
     example_draws\<lparr>draw_country := Venezuela, draw_gender := Male,
       draw_ptype := Discrimination, draw_noise := - 0.55\<rparr>"

text \<open>Tables in which every row has the same draws, and two runs of the shuffle.\<close>

definition example_table :: "nat \<Rightarrow> draws" where
  "example_table i = example_draws"

definition threshold_table :: "nat \<Rightarrow> draws" where
  "threshold_table i = threshold_draws"

definition low_risk_table :: "nat \<Rightarrow> draws" where
  "low_risk_table i = low_risk_draws"

definition no_exchange :: "nat \<Rightarrow> nat" where
  "no_exchange i = i"

definition exchange_with_first :: "nat \<Rightarrow> nat" where
  "exchange_with_first i = 0"

section \<open>Properties\<close>

subsection \<open>Shape of the table\<close>

lemma length_generate: "length (generate n reviewed_idx ds) = n"
  by (simp add: generate_def)

lemma nth_generate:
  "i < n \<Longrightarrow> generate n reviewed_idx ds ! i
     = generate_row i (human_reviewed_col n reviewed_idx ! i) (ds i)"
  by (simp add: generate_def)

lemma in_generateE:
  assumes "r \<in> set (generate n reviewed_idx ds)"
  obtains i where "i < n"
    and "r = generate_row i (human_reviewed_col n reviewed_idx ! i) (ds i)"
  using assms by (auto simp add: generate_def)

subsection \<open>The columns of a generated row\<close>

lemma generate_row_sel:
  "id_col (generate_row i rv d) = int i + 1"
  "country_of_origin (generate_row i rv d) = draw_country d"
  "persecution_type (generate_row i rv d) = draw_ptype d"
  "nexus_established (generate_row i rv d) = draw_nexus d"
  "state_protection_score (generate_row i rv d) = clip (draw_state_protection d) 0.05 1.0"
  "reported_trauma (generate_row i rv d) = draw_trauma d (trauma_base (draw_country d) (draw_ptype d))"
  "credibility_score (generate_row i rv d) =
     clip (draw_base_cred d + language_map (draw_language d) + edu_map (draw_education d)
           + trauma_penalty (draw_trauma d (trauma_base (draw_country d) (draw_ptype d)))) 0.0 1.0"
  "risk_score_uncapped (generate_row i rv d) =
     raw_risk (draw_country d) (draw_ptype d) (draw_gender d) (draw_noise d)"
  "risk_score (generate_row i rv d) = clip (risk_score_uncapped (generate_row i rv d)) 0.0 1.0"
  "integration_score (generate_row i rv d) =
     clip (integration_raw (credibility_score (generate_row i rv d)) (draw_age d)
             (draw_integration d)) 0.0 1.0"
  "AI_decision (generate_row i rv d) =
     AI_decision_of (risk_score (generate_row i rv d)) (credibility_score (generate_row i rv d))
       (nexus_established (generate_row i rv d)) (state_protection_score (generate_row i rv d))"
  "human_reviewed (generate_row i rv d) = rv"
  "human_override (generate_row i rv d) = flip_mask rv (draw_flip d)"
  "final_decision (generate_row i rv d) =
     final_decision_of (AI_decision (generate_row i rv d)) (human_override (generate_row i rv d))"
  "appealed (generate_row i rv d) =
     appealed_of (final_decision (generate_row i rv d)) (draw_appeal_rand d)"
  "appeal_outcome (generate_row i rv d) =
     appeal_outcomes (appealed (generate_row i rv d)) (draw_appeal_outcome d)"
  "bias_flag (generate_row i rv d) =
     draw_bias d (bias_weights (reported_trauma (generate_row i rv d))
        (credibility_score (generate_row i rv d)) (nexus_established (generate_row i rv d))
        (final_decision (generate_row i rv d)))"
  by (simp_all add: generate_row_def Let_def)

subsection \<open>Clipping\<close>

lemma clip_bounds: "lo \<le> hi \<Longrightarrow> lo \<le> clip a lo hi \<and> clip a lo hi \<le> hi"
  by (simp add: clip_def)

subsection \<open>The review subset\<close>

lemma review_size_div: "review_size n = n div 10"
proof -
  have "\<lfloor>real n / real 10\<rfloor> = int (n div 10)"
    by (rule floor_divide_of_nat_eq)
  then show ?thesis by (simp add: review_size_def)
qed

lemma foldl_mark_length:
  "length (foldl (\<lambda>col i. col[i := True]) acc idx) = length acc"
  by (induction idx arbitrary: acc) simp_all

lemma foldl_mark_nth:
  "j < length acc \<Longrightarrow>
   foldl (\<lambda>col i. col[i := True]) acc idx ! j \<longleftrightarrow> acc ! j \<or> j \<in> set idx"
proof (induction idx arbitrary: acc)
  case Nil
  then show ?case by simp
next
  case (Cons a idx)
  have upd: "acc[a := True] ! j \<longleftrightarrow> a = j \<or> acc ! j"
    using Cons.prems by (cases "a = j") simp_all
  from Cons.prems have "j < length (acc[a := True])" by simp
  from Cons.IH [OF this] upd show ?case by auto
qed

lemma human_reviewed_col_nth:
  "i < n \<Longrightarrow> human_reviewed_col n reviewed_idx ! i \<longleftrightarrow> i \<in> set reviewed_idx"
  by (simp add: human_reviewed_col_def foldl_mark_nth)

lemma length_human_reviewed_col: "length (human_reviewed_col n reviewed_idx) = n"
  by (simp add: human_reviewed_col_def foldl_mark_length)

lemma reviewed_rows_count:
  "length (filter human_reviewed (generate n reviewed_idx ds))
     = card (set reviewed_idx \<inter> {0..<n})"
proof -
  have "length (filter human_reviewed (generate n reviewed_idx ds))
      = length (filter (\<lambda>i. human_reviewed_col n reviewed_idx ! i) [0..<n])"
    by (simp add: generate_def filter_map comp_def generate_row_sel)
  also have "\<dots> = length (filter (\<lambda>i. i \<in> set reviewed_idx) [0..<n])"
    by (rule arg_cong [where f = length], rule filter_cong)
       (simp_all add: human_reviewed_col_nth)
  also have "\<dots> = card ({i. i \<in> set reviewed_idx} \<inter> set [0..<n])"
    by (rule distinct_length_filter) simp
  finally show ?thesis by simp
qed

lemma generate_row_in_generate:
  assumes "i < n" and "rv \<longleftrightarrow> i \<in> set reviewed_idx"
  shows "generate_row i rv (ds i) \<in> set (generate n reviewed_idx ds)"
proof -
  from assms have "generate n reviewed_idx ds ! i = generate_row i rv (ds i)"
    by (simp add: nth_generate human_reviewed_col_nth)
  moreover from assms have "generate n reviewed_idx ds ! i \<in> set (generate n reviewed_idx ds)"
    by (simp add: length_generate)
  ultimately show ?thesis by simp
qed

subsection \<open>Rounding to binary64\<close>

lemma bit_length_eq: "2 ^ p \<le> m \<Longrightarrow> m < 2 ^ Suc p \<Longrightarrow> bit_length m = Suc p"
proof (induction p arbitrary: m)
  case 0
  then have "m = 1" by simp
  then show ?case by (simp add: bit_length.simps [of "Suc 0"] bit_length.simps [of 0])
next
  case (Suc p)
  from Suc.prems have "2 ^ p \<le> m div 2" "m div 2 < 2 ^ Suc p" by auto
  then have "bit_length (m div 2) = Suc p" by (rule Suc.IH)
  moreover from Suc.prems have "m \<noteq> 0" by auto
  ultimately show ?case by (simp add: bit_length.simps [of m])
qed

lemma float64_eq:
  assumes lo: "2 ^ 52 \<le> \<bar>x\<bar> * 2 ^ k" and hi: "\<bar>x\<bar> * 2 ^ k < 2 ^ 53"
    and k: "k \<le> subnormal_bits"
  shows "float64 x = sgn x * (of_int (round_half_even (\<bar>x\<bar> * 2 ^ k)) / 2 ^ k)"
proof -
  define d where "d = subnormal_bits - k"
  define m where "m = nat \<lfloor>\<bar>x\<bar> * 2 ^ subnormal_bits\<rfloor>"
  from k have kd: "subnormal_bits = k + d" by (simp add: d_def)
  have p: "(2::real) ^ subnormal_bits = 2 ^ k * 2 ^ d"
    unfolding kd by (rule power_add)
  have scaled: "\<bar>x\<bar> * 2 ^ subnormal_bits = \<bar>x\<bar> * 2 ^ k * 2 ^ d"
    by (simp only: p mult.assoc)
  have "(2::real) ^ (52 + d) \<le> \<bar>x\<bar> * 2 ^ subnormal_bits"
    unfolding scaled power_add using lo by (intro mult_right_mono) simp_all
  then have "real_of_int (2 ^ (52 + d)) \<le> \<bar>x\<bar> * 2 ^ subnormal_bits" by simp
  then have "(2::int) ^ (52 + d) \<le> \<lfloor>\<bar>x\<bar> * 2 ^ subnormal_bits\<rfloor>" by (simp only: le_floor_iff)
  then have m_lo: "2 ^ (52 + d) \<le> m"
    unfolding m_def by (simp add: le_nat_iff)
  have "\<bar>x\<bar> * 2 ^ subnormal_bits < (2::real) ^ (53 + d)"
    unfolding scaled power_add using hi by (intro mult_strict_right_mono) simp_all
  then have "\<bar>x\<bar> * 2 ^ subnormal_bits < real_of_int (2 ^ (53 + d))" by simp
  then have "\<lfloor>\<bar>x\<bar> * 2 ^ subnormal_bits\<rfloor> < (2::int) ^ (53 + d)" by (simp only: floor_less_iff)
  then have m_hi: "m < 2 ^ Suc (52 + d)"
    unfolding m_def by (simp add: nat_less_iff)
  from m_lo m_hi have "bit_length m = Suc (52 + d)" by (rule bit_length_eq)
  then have "(2::real) ^ (bit_length m - 53) / 2 ^ subnormal_bits = 2 ^ d / (2 ^ k * 2 ^ d)"
    by (simp only: p) simp
  also have "\<dots> = 1 / 2 ^ k" by simp
  finally have ulp: "(2::real) ^ (bit_length m - 53) / 2 ^ subnormal_bits = 1 / 2 ^ k" .
  show ?thesis
    unfolding float64_def Let_def m_def [symmetric] ulp by simp
qed

lemma float64_0: "float64 0 = 0"
  by (simp add: float64_def)

text \<open>The exponents that occur when the decision rule is evaluated on concrete rows.\<close>

lemmas float64_at =
  float64_eq [of _ 52] float64_eq [of _ 53] float64_eq [of _ 54] float64_eq [of _ 55]
  float64_eq [of _ 56] float64_eq [of _ 57]

text \<open>
  \<open>review_size\<close> takes \<open>0.10 * n\<close> exactly.  For the 500 rows of the script the product in
  binary64 truncates to the same integer.
\<close>

lemma review_size_float64:
  "nat \<lfloor>float64 (float64 0.10 * real n_records)\<rfloor> = review_size n_records"
  by (simp add: n_records_def review_size_def float64_eq [of _ 56] float64_eq [of _ 47]
        round_half_even_def subnormal_bits_def)

subsection \<open>The shuffle\<close>

lemma length_swap: "length (swap xs i j) = length xs"
  by (simp add: swap_def)

lemma set_swap_list: "i < length xs \<Longrightarrow> j < length xs \<Longrightarrow> set (swap xs i j) = set xs"
  by (simp add: swap_def)

lemma distinct_swap_list:
  "i < length xs \<Longrightarrow> j < length xs \<Longrightarrow> distinct (swap xs i j) = distinct xs"
  by (simp add: swap_def)

lemma swap_nth_other: "p \<noteq> i \<Longrightarrow> p \<noteq> j \<Longrightarrow> swap xs i j ! p = xs ! p"
  by (simp add: swap_def)

lemma swap_nth_first: "i < length xs \<Longrightarrow> j < length xs \<Longrightarrow> swap xs i j ! i = xs ! j"
  by (cases "i = j") (simp_all add: swap_def)

lemma length_shuffle: "length (shuffle m js xs) = length xs"
  by (induction m arbitrary: xs) (simp_all add: length_swap)

lemma shuffle_keeps:
  "m < length xs \<Longrightarrow> set (shuffle m js xs) = set xs \<and> distinct (shuffle m js xs) = distinct xs"
proof (induction m arbitrary: xs)
  case 0
  then show ?case by simp
next
  case (Suc m)
  let ?j = "js (Suc m) mod Suc (Suc m)"
  have "?j < Suc (Suc m)" by simp
  with Suc.prems have j: "?j < length xs" by linarith
  from Suc.prems have "m < length (swap xs (Suc m) ?j)" by (simp add: length_swap)
  from Suc.IH [OF this] Suc.prems j show ?case
    by (simp add: set_swap_list distinct_swap_list)
qed

lemma shuffle_nth_above: "m < p \<Longrightarrow> shuffle m js xs ! p = xs ! p"
proof (induction m arbitrary: xs)
  case 0
  then show ?case by simp
next
  case (Suc m)
  let ?j = "js (Suc m) mod Suc (Suc m)"
  have "?j < Suc (Suc m)" by simp
  with Suc.prems have "p \<noteq> Suc m" "p \<noteq> ?j" by linarith+
  then have "swap xs (Suc m) ?j ! p = xs ! p" by (rule swap_nth_other)
  moreover from Suc.prems have "m < p" by simp
  ultimately show ?case using Suc.IH by simp
qed

lemma shuffle_nth_top:
  assumes "Suc m < length xs"
  shows "shuffle (Suc m) js xs ! Suc m = xs ! (js (Suc m) mod Suc (Suc m))"
proof -
  let ?j = "js (Suc m) mod Suc (Suc m)"
  have "?j < Suc (Suc m)" by simp
  with assms have j: "?j < length xs" by linarith
  have "shuffle (Suc m) js xs ! Suc m = swap xs (Suc m) ?j ! Suc m"
    by (simp add: shuffle_nth_above)
  also have "\<dots> = xs ! ?j" using assms j by (rule swap_nth_first)
  finally show ?thesis .
qed

lemma shuffle_inj:
  assumes "distinct xs" and "m < length xs"
    and "\<forall>i. 1 \<le> i \<and> i \<le> m \<longrightarrow> js i \<le> i \<and> js' i \<le> i"
    and "shuffle m js xs = shuffle m js' xs"
  shows "\<forall>i. 1 \<le> i \<and> i \<le> m \<longrightarrow> js i = js' i"
  using assms
proof (induction m arbitrary: xs)
  case 0
  then show ?case by simp
next
  case (Suc m)
  from Suc.prems(3) have le: "js (Suc m) \<le> Suc m" "js' (Suc m) \<le> Suc m" by simp_all
  then have md: "js (Suc m) mod Suc (Suc m) = js (Suc m)"
    "js' (Suc m) mod Suc (Suc m) = js' (Suc m)" by simp_all
  from le Suc.prems(2) have lt: "js (Suc m) < length xs" "js' (Suc m) < length xs" by linarith+
  have "xs ! js (Suc m) = shuffle (Suc m) js xs ! Suc m"
    using shuffle_nth_top [OF Suc.prems(2), of js] by (simp only: md)
  also have "\<dots> = shuffle (Suc m) js' xs ! Suc m"
    by (simp only: Suc.prems(4))
  also have "\<dots> = xs ! js' (Suc m)"
    using shuffle_nth_top [OF Suc.prems(2), of js'] by (simp only: md)
  finally have top: "js (Suc m) = js' (Suc m)"
    using Suc.prems(1) lt by (simp add: nth_eq_iff_index_eq)
  let ?ys = "swap xs (Suc m) (js (Suc m))"
  have "distinct ?ys" using Suc.prems(1,2) lt by (simp add: distinct_swap_list)
  moreover have "m < length ?ys" using Suc.prems(2) by (simp add: length_swap)
  moreover have "\<forall>i. 1 \<le> i \<and> i \<le> m \<longrightarrow> js i \<le> i \<and> js' i \<le> i"
    using Suc.prems(3) by simp
  moreover have "shuffle m js ?ys = shuffle m js' ?ys"
    using Suc.prems(4) by (simp add: md top)
  ultimately have "\<forall>i. 1 \<le> i \<and> i \<le> m \<longrightarrow> js i = js' i"
    by (rule Suc.IH)
  with top show ?case by (auto simp add: le_Suc_eq)
qed

lemma permutation_props:
  "length (permutation n js) = n \<and> distinct (permutation n js)
   \<and> set (permutation n js) = {0..<n}"
proof (cases n)
  case 0
  then show ?thesis by (simp add: permutation_def)
next
  case (Suc m)
  then have "n - 1 < length [0..<n]" by simp
  from shuffle_keeps [OF this, of js] show ?thesis
    by (simp add: permutation_def length_shuffle)
qed

lemma permutation_inj: "inj_on (permutation n) (shuffle_draws n)"
proof (rule inj_onI)
  fix js js'
  assume a: "js \<in> shuffle_draws n" and b: "js' \<in> shuffle_draws n"
    and eq: "permutation n js = permutation n js'"
  have same: "js i = js' i" if "i \<in> {1..<n}" for i
  proof -
    from that have "0 < n" by simp
    then have "n - 1 < length [0..<n]" by simp
    moreover have "\<forall>i. 1 \<le> i \<and> i \<le> n - 1 \<longrightarrow> js i \<le> i \<and> js' i \<le> i"
      using a b by (auto simp add: shuffle_draws_def PiE_def Pi_def)
    moreover have "shuffle (n - 1) js [0..<n] = shuffle (n - 1) js' [0..<n]"
      using eq by (simp add: permutation_def)
    ultimately have "\<forall>i. 1 \<le> i \<and> i \<le> n - 1 \<longrightarrow> js i = js' i"
      using shuffle_inj [of "[0..<n]" "n - 1" js js'] by simp
    moreover from that have "1 \<le> i \<and> i \<le> n - 1" by auto
    ultimately show ?thesis by blast
  qed
  from a b same show "js = js'"
    unfolding shuffle_draws_def by (rule PiE_ext)
qed

lemma card_shuffle_draws: "card (shuffle_draws n) = fact n"
proof -
  have "card (shuffle_draws n) = (\<Prod>i\<in>{1..<n}. card {0..i})"
    unfolding shuffle_draws_def by (rule card_PiE) simp
  also have "\<dots> = (\<Prod>i\<in>{1..<n}. Suc i)" by simp
  also have "\<dots> = fact n"
  proof (induction n)
    case 0
    then show ?case by simp
  next
    case (Suc n)
    show ?case
    proof (cases "n = 0")
      case True
      then show ?thesis by simp
    next
      case False
      then have "{1..<Suc n} = insert n {1..<n}" by auto
      then have "(\<Prod>i\<in>{1..<Suc n}. Suc i) = Suc n * (\<Prod>i\<in>{1..<n}. Suc i)" by simp
      with Suc.IH show ?thesis by simp
    qed
  qed
  finally show ?thesis .
qed

lemma finite_shuffle_draws: "finite (shuffle_draws n)"
  unfolding shuffle_draws_def by (rule finite_PiE) simp_all

lemma card_distinct_lists:
  assumes "finite A"
  shows "finite {xs. distinct xs \<and> set xs = A}"
    and "card {xs. distinct xs \<and> set xs = A} = fact (card A)"
proof -
  have eq: "{xs. distinct xs \<and> set xs = A}
      = {xs. length xs = card A \<and> distinct xs \<and> set xs \<subseteq> A}" (is "?L = ?R")
  proof (intro set_eqI iffI)
    fix xs assume "xs \<in> ?L"
    then show "xs \<in> ?R" by (auto simp add: distinct_card)
  next
    fix xs assume "xs \<in> ?R"
    then have l: "length xs = card A" and d: "distinct xs" and s: "set xs \<subseteq> A" by simp_all
    from d l have "card (set xs) = card A" by (simp add: distinct_card)
    with assms s have "set xs = A" by (simp add: card_subset_eq)
    with d show "xs \<in> ?L" by simp
  qed
  have "?R \<subseteq> {xs. set xs \<subseteq> A \<and> length xs = card A}" by auto
  moreover have "finite {xs. set xs \<subseteq> A \<and> length xs = card A}"
    using assms by (rule finite_lists_length_eq)
  ultimately have "finite ?R" by (rule finite_subset)
  then show "finite ?L" by (simp only: eq)
  have "card ?R = \<Prod>{card A - card A + 1 .. card A}"
    using assms by (intro card_lists_distinct_length_eq) simp_all
  also have "\<dots> = fact (card A)" by (simp add: fact_prod)
  finally show "card ?L = fact (card A)" by (simp only: eq)
qed

lemma permutation_range:
  "permutation n ` shuffle_draws n = {xs. distinct xs \<and> set xs = {0..<n}}"
proof (rule card_subset_eq)
  show "finite {xs. distinct xs \<and> set xs = {0..<n}}"
    by (rule card_distinct_lists(1)) simp
  show "permutation n ` shuffle_draws n \<subseteq> {xs. distinct xs \<and> set xs = {0..<n}}"
    using permutation_props by auto
  have "card (permutation n ` shuffle_draws n) = fact n"
    by (simp add: card_image permutation_inj card_shuffle_draws)
  also have "\<dots> = card {xs. distinct xs \<and> set xs = {0..<n}}"
    by (simp add: card_distinct_lists(2))
  finally show "card (permutation n ` shuffle_draws n)
      = card {xs. distinct xs \<and> set xs = {0..<n}}" .
qed

lemma prefix_count:
  assumes S: "S \<subseteq> {0..<n}" and k: "card S = k"
  shows "card {xs. distinct xs \<and> set xs = {0..<n} \<and> set (take k xs) = S}
           = fact k * fact (n - k)"
proof -
  let ?A = "{a. distinct a \<and> set a = S}"
  let ?B = "{b. distinct b \<and> set b = {0..<n} - S}"
  from S have finS: "finite S" by (rule finite_subset) simp
  have finC: "finite ({0..<n} - S)" by simp
  have cardC: "card ({0..<n} - S) = n - k"
    using S finS k by (simp add: card_Diff_subset)
  have img: "{xs. distinct xs \<and> set xs = {0..<n} \<and> set (take k xs) = S}
      = (\<lambda>(a, b). a @ b) ` (?A \<times> ?B)" (is "?L = ?R")
  proof (intro set_eqI iffI)
    fix xs assume "xs \<in> ?L"
    then have d: "distinct xs" and s: "set xs = {0..<n}" and t: "set (take k xs) = S"
      by simp_all
    have split: "take k xs @ drop k xs = xs" by simp
    from d have dt: "distinct (take k xs)" and dd: "distinct (drop k xs)" by simp_all
    from d have disj: "set (take k xs) \<inter> set (drop k xs) = {}"
      by (rule set_take_disj_set_drop_if_distinct) simp
    have "set (take k xs) \<union> set (drop k xs) = set xs"
      by (simp only: set_append [symmetric] split)
    with disj s t have "set (drop k xs) = {0..<n} - S" by blast
    with dt dd t have "(take k xs, drop k xs) \<in> ?A \<times> ?B" by simp
    then have "(\<lambda>(a, b). a @ b) (take k xs, drop k xs) \<in> ?R" by (rule imageI)
    then show "xs \<in> ?R" by (simp only: prod.case split)
  next
    fix xs assume "xs \<in> ?R"
    then obtain a b where xs: "xs = a @ b" and a: "distinct a" "set a = S"
      and b: "distinct b" "set b = {0..<n} - S" by auto
    from a k have "length a = k" by (metis distinct_card)
    then have "take k xs = a" by (simp add: xs)
    moreover from a b have "distinct xs" by (auto simp add: xs)
    moreover from a b S have "set xs = {0..<n}" by (auto simp add: xs)
    ultimately show "xs \<in> ?L" using a by simp
  qed
  have inj: "inj_on (\<lambda>(a, b). a @ b) (?A \<times> ?B)"
  proof (rule inj_onI)
    fix p q assume p: "p \<in> ?A \<times> ?B" and q: "q \<in> ?A \<times> ?B"
      and eq: "(\<lambda>(a, b). a @ b) p = (\<lambda>(a, b). a @ b) q"
    obtain a b where pab: "p = (a, b)" by (cases p)
    obtain a' b' where qab: "q = (a', b')" by (cases q)
    from p pab have "length a = card S" by (auto simp add: distinct_card [symmetric])
    moreover from q qab have "length a' = card S" by (auto simp add: distinct_card [symmetric])
    ultimately have "length a = length a'" by simp
    with eq show "p = q" by (simp add: pab qab)
  qed
  have "card ?L = card (?A \<times> ?B)"
    unfolding img using inj by (rule card_image)
  also have "\<dots> = card ?A * card ?B" by (rule card_cartesian_product)
  also have "\<dots> = fact k * fact (n - k)"
    using card_distinct_lists(2) [OF finS] card_distinct_lists(2) [OF finC]
    by (simp add: k cardC)
  finally show ?thesis .
qed

lemma choice_props:
  assumes "k \<le> n"
  shows "length (choice_without_replacement n k js) = k"
    and "distinct (choice_without_replacement n k js)"
    and "set (choice_without_replacement n k js) \<subseteq> {0..<n}"
proof -
  note p = permutation_props [of n js]
  from p assms show "length (choice_without_replacement n k js) = k"
    by (simp add: choice_without_replacement_def)
  from p show "distinct (choice_without_replacement n k js)"
    by (simp add: choice_without_replacement_def)
  have "set (take k (permutation n js)) \<subseteq> set (permutation n js)"
    by (rule set_take_subset)
  with p show "set (choice_without_replacement n k js) \<subseteq> {0..<n}"
    by (simp add: choice_without_replacement_def)
qed

lemma choice_uniform:
  assumes S: "S \<subseteq> {0..<n}" and k: "card S = k"
  shows "card {js \<in> shuffle_draws n. set (choice_without_replacement n k js) = S}
           = fact k * fact (n - k)"
proof -
  let ?D = "{js \<in> shuffle_draws n. set (choice_without_replacement n k js) = S}"
  have sub: "?D \<subseteq> shuffle_draws n" by blast
  have "inj_on (permutation n) ?D"
    using permutation_inj sub by (rule inj_on_subset)
  then have "card ?D = card (permutation n ` ?D)"
    by (simp add: card_image)
  also have "permutation n ` ?D
      = {xs. distinct xs \<and> set xs = {0..<n} \<and> set (take k xs) = S}" (is "_ = ?P")
  proof (intro set_eqI iffI)
    fix xs assume "xs \<in> permutation n ` ?D"
    then obtain js where "js \<in> ?D" and "xs = permutation n js" by blast
    then show "xs \<in> ?P"
      using permutation_props [of n js] by (simp add: choice_without_replacement_def)
  next
    fix xs assume xs: "xs \<in> ?P"
    then have "xs \<in> {xs. distinct xs \<and> set xs = {0..<n}}" by simp
    then have "xs \<in> permutation n ` shuffle_draws n" by (simp only: permutation_range)
    then obtain js where js: "js \<in> shuffle_draws n" and eq: "xs = permutation n js" by blast
    from xs eq have "set (choice_without_replacement n k js) = S"
      by (simp add: choice_without_replacement_def)
    with js have "js \<in> ?D" by simp
    with eq show "xs \<in> permutation n ` ?D" by blast
  qed
  also have "card ?P = fact k * fact (n - k)"
    using S k by (rule prefix_count)
  finally show ?thesis .
qed

lemma draw_reviewed_idx_props:
  "length (draw_reviewed_idx n js) = review_size n"
  "distinct (draw_reviewed_idx n js)"
  "set (draw_reviewed_idx n js) \<subseteq> {0..<n}"
proof -
  have "review_size n \<le> n" by (simp add: review_size_div)
  then show "length (draw_reviewed_idx n js) = review_size n"
    "distinct (draw_reviewed_idx n js)"
    "set (draw_reviewed_idx n js) \<subseteq> {0..<n}"
    unfolding draw_reviewed_idx_def by (rule choice_props)+
qed

lemma nth_dataset_row:
  "\<exists>rv. dataset js ds ! 0 = generate_row 0 rv (ds 0)
        \<and> dataset js ds ! 0 \<in> set (dataset js ds)"
proof -
  have "dataset js ds ! 0
      = generate_row 0 (human_reviewed_col n_records (draw_reviewed_idx n_records js) ! 0) (ds 0)"
    unfolding dataset_def pipeline_def by (rule nth_generate) (simp add: n_records_def)
  moreover have "dataset js ds ! 0 \<in> set (dataset js ds)"
    by (rule nth_mem) (simp add: dataset_def pipeline_def length_generate n_records_def)
  ultimately show ?thesis by blast
qed

subsection \<open>The example row, evaluated\<close>

lemma example_row_values:
  "reported_trauma (generate_row i rv example_draws) = True"
  "credibility_score (generate_row i rv example_draws) = 0.62"
  "risk_score_uncapped (generate_row i rv example_draws) = 1.10"
  "risk_score (generate_row i rv example_draws) = 1"
  "nexus_established (generate_row i rv example_draws) = True"
  "state_protection_score (generate_row i rv example_draws) = 0.3"
  "AI_decision (generate_row i rv example_draws) = Approve"
  "human_override (generate_row i rv example_draws) = rv"
  "final_decision (generate_row i rv example_draws) = (if rv then Deny else Approve)"
  "appealed (generate_row i rv example_draws) = rv"
  "appeal_outcome (generate_row i rv example_draws) = (if rv then Upheld else Not_applicable)"
  by (simp_all add: generate_row_sel example_draws_def clip_def raw_risk_def trauma_base_def
        trauma_penalty_def flip_mask_def AI_decision_of_def approve_score_def
        final_decision_of_def flip_def appealed_of_def appeal_outcomes_def
        float64_at round_half_even_def subnormal_bits_def)

lemma threshold_row_values:
  "risk_score (generate_row i rv threshold_draws) = 0.5"
  "credibility_score (generate_row i rv threshold_draws) = 5404319552844595 / 2 ^ 53"
  "nexus_established (generate_row i rv threshold_draws) = True"
  "state_protection_score (generate_row i rv threshold_draws) = 6305039478318694 / 2 ^ 54"
  by (simp_all add: generate_row_sel threshold_draws_def example_draws_def clip_def raw_risk_def
        trauma_base_def trauma_penalty_def float64_at round_half_even_def subnormal_bits_def)

lemma threshold_row_decision:
  "approve_score (risk_score (generate_row i rv threshold_draws))
     (credibility_score (generate_row i rv threshold_draws))
     (nexus_established (generate_row i rv threshold_draws))
     (state_protection_score (generate_row i rv threshold_draws))
     = 5584463537939416 / 2 ^ 53"
  "float64 0.62 = 5584463537939415 / 2 ^ 53"
  "AI_decision (generate_row i rv threshold_draws) = Approve"
  by (simp_all add: generate_row_sel threshold_draws_def example_draws_def clip_def raw_risk_def
        trauma_base_def trauma_penalty_def AI_decision_of_def approve_score_def
        float64_at round_half_even_def subnormal_bits_def)

subsection \<open>The decision rule\<close>

text \<open>
  Claim C1, as the script has it.  For every row of the table, \<open>AI_decision\<close> is \<open>approve\<close>
  exactly when \<open>approve_score > 0.62\<close>, \<open>credibility_score > 0.50\<close> and \<open>nexus_established\<close>
  hold, and \<open>deny\<close> otherwise, where \<open>approve_score\<close> is \<open>0.45 * risk_score
  + 0.30 * credibility_score + 0.15 * nexus_established + 0.10 * (1 - state_protection_score)\<close>
  evaluated in binary64: every literal is the nearest double, the nexus is 1.0 or 0.0, and
  each product, the difference and each sum, taken from left to right, is rounded to the
  nearest double.  The right-hand sides read columns of the row only: no draw enters.
\<close>

theorem AI_decision_float64_rule:
  assumes "r \<in> set (generate n reviewed_idx ds)"
  shows "approve_score (risk_score r) (credibility_score r) (nexus_established r)
             (state_protection_score r)
           = float64 (float64 (float64
               (float64 (float64 0.45 * risk_score r)
                + float64 (float64 0.30 * credibility_score r))
                + float64 (float64 0.15 * (if nexus_established r then 1 else 0)))
                + float64 (float64 0.10 * float64 (1 - state_protection_score r)))
       \<and> (AI_decision r = Approve \<longleftrightarrow>
            approve_score (risk_score r) (credibility_score r) (nexus_established r)
              (state_protection_score r) > float64 0.62
            \<and> credibility_score r > 0.50 \<and> nexus_established r = True)
       \<and> (AI_decision r = Deny \<longleftrightarrow>
            \<not> (approve_score (risk_score r) (credibility_score r) (nexus_established r)
                 (state_protection_score r) > float64 0.62
               \<and> credibility_score r > 0.50 \<and> nexus_established r = True))"
proof -
  from assms obtain i where
    r: "r = generate_row i (human_reviewed_col n reviewed_idx ! i) (ds i)"
    by (rule in_generateE)
  have "AI_decision r = AI_decision_of (risk_score r) (credibility_score r)
          (nexus_established r) (state_protection_score r)"
    unfolding r by (rule generate_row_sel)
  then show ?thesis
    by (simp add: AI_decision_of_def approve_score_def)
qed

theorem AI_decision_float64_rule_witness:
  "generate_row 0 False threshold_draws \<in> set (generate 1 [] threshold_table)
   \<and> approve_score (risk_score (generate_row 0 False threshold_draws))
        (credibility_score (generate_row 0 False threshold_draws))
        (nexus_established (generate_row 0 False threshold_draws))
        (state_protection_score (generate_row 0 False threshold_draws))
       = 5584463537939416 / 2 ^ 53
   \<and> float64 0.62 = 5584463537939415 / 2 ^ 53
   \<and> AI_decision (generate_row 0 False threshold_draws) = Approve"
proof -
  have "generate_row 0 False (threshold_table 0) \<in> set (generate 1 [] threshold_table)"
    by (rule generate_row_in_generate) simp_all
  then have h: "generate_row 0 False threshold_draws \<in> set (generate 1 [] threshold_table)"
    by (simp only: threshold_table_def)
  have sc: "approve_score (risk_score (generate_row 0 False threshold_draws))
        (credibility_score (generate_row 0 False threshold_draws))
        (nexus_established (generate_row 0 False threshold_draws))
        (state_protection_score (generate_row 0 False threshold_draws))
       = 5584463537939416 / 2 ^ 53"
    by (rule threshold_row_decision)
  have th: "float64 0.62 = 5584463537939415 / 2 ^ 53"
    by (rule threshold_row_decision)
  have gt: "approve_score (risk_score (generate_row 0 False threshold_draws))
        (credibility_score (generate_row 0 False threshold_draws))
        (nexus_established (generate_row 0 False threshold_draws))
        (state_protection_score (generate_row 0 False threshold_draws))
       > float64 0.62"
    unfolding sc th by simp
  have cr: "credibility_score (generate_row 0 False threshold_draws) > 0.50"
    by (simp add: threshold_row_values)
  have nx: "nexus_established (generate_row 0 False threshold_draws) = True"
    by (simp add: threshold_row_values)
  from AI_decision_float64_rule [OF h] gt cr nx
  have "AI_decision (generate_row 0 False threshold_draws) = Approve"
    by blast
  with h sc th show ?thesis
    by blast
qed

text \<open>
  Claim C1 with \<open>approve_score\<close> read as the exact value of the formula fails.  The row of
  the 500-row table with risk 0.5, credibility the double 0.6, an established nexus and
  state protection the double 0.35 is approved: the script computes the score
  0.6200000000000001.  The exact value of the formula on these columns is not above 0.62.
\<close>

theorem AI_decision_exact_rule_counterexample:
  "dataset no_exchange threshold_table ! 0 \<in> set (dataset no_exchange threshold_table)
   \<and> AI_decision (dataset no_exchange threshold_table ! 0) = Approve
   \<and> \<not> (0.45 * risk_score (dataset no_exchange threshold_table ! 0)
          + 0.30 * credibility_score (dataset no_exchange threshold_table ! 0)
          + 0.15 * (if nexus_established (dataset no_exchange threshold_table ! 0) then 1 else 0)
          + 0.10 * (1 - state_protection_score (dataset no_exchange threshold_table ! 0))
          > 0.62
        \<and> credibility_score (dataset no_exchange threshold_table ! 0) > 0.50
        \<and> nexus_established (dataset no_exchange threshold_table ! 0) = True)"
proof -
  obtain rv where row: "dataset no_exchange threshold_table ! 0
      = generate_row 0 rv (threshold_table 0)"
    and mem: "dataset no_exchange threshold_table ! 0 \<in> set (dataset no_exchange threshold_table)"
    using nth_dataset_row by blast
  have r: "dataset no_exchange threshold_table ! 0 = generate_row 0 rv threshold_draws"
    by (simp only: row threshold_table_def)
  have "AI_decision (generate_row 0 rv threshold_draws) = Approve"
    by (rule threshold_row_decision)
  moreover have "\<not> (0.45 * risk_score (generate_row 0 rv threshold_draws)
          + 0.30 * credibility_score (generate_row 0 rv threshold_draws)
          + 0.15 * (if nexus_established (generate_row 0 rv threshold_draws) then 1 else 0)
          + 0.10 * (1 - state_protection_score (generate_row 0 rv threshold_draws))
          > 0.62)"
    by (simp add: threshold_row_values)
  ultimately show ?thesis
    using mem by (simp only: r) simp
qed

text \<open>
  Claim C10.  Two generated rows (of the same table or of two tables) that agree on
  \<open>risk_score\<close>, \<open>credibility_score\<close>, \<open>nexus_established\<close> and \<open>state_protection_score\<close>
  have the same \<open>AI_decision\<close>, whatever their other columns hold.
\<close>

theorem AI_decision_ignores_other_fields:
  assumes "r1 \<in> set (generate n1 idx1 ds1)"
    and "r2 \<in> set (generate n2 idx2 ds2)"
    and "risk_score r1 = risk_score r2"
    and "credibility_score r1 = credibility_score r2"
    and "nexus_established r1 = nexus_established r2"
    and "state_protection_score r1 = state_protection_score r2"
  shows "AI_decision r1 = AI_decision r2"
proof -
  from assms(1) obtain i where
    r1: "r1 = generate_row i (human_reviewed_col n1 idx1 ! i) (ds1 i)"
    by (rule in_generateE)
  from assms(2) obtain j where
    r2: "r2 = generate_row j (human_reviewed_col n2 idx2 ! j) (ds2 j)"
    by (rule in_generateE)
  have "AI_decision r1 = AI_decision_of (risk_score r1) (credibility_score r1)
          (nexus_established r1) (state_protection_score r1)"
    unfolding r1 by (rule generate_row_sel)
  also have "\<dots> = AI_decision_of (risk_score r2) (credibility_score r2)
          (nexus_established r2) (state_protection_score r2)"
    by (simp only: assms(3-6))
  also have "\<dots> = AI_decision r2"
    unfolding r2 by (rule generate_row_sel [symmetric])
  finally show ?thesis .
qed

theorem AI_decision_ignores_other_fields_witness:
  "generate_row 0 False example_draws \<in> set (generate 1 [] (\<lambda>_. example_draws))
   \<and> generate_row 1 True relocating_draws \<in> set (generate 2 [1] (\<lambda>_. relocating_draws))
   \<and> risk_score (generate_row 0 False example_draws)
       = risk_score (generate_row 1 True relocating_draws)
   \<and> credibility_score (generate_row 0 False example_draws)
       = credibility_score (generate_row 1 True relocating_draws)
   \<and> nexus_established (generate_row 0 False example_draws)
       = nexus_established (generate_row 1 True relocating_draws)
   \<and> state_protection_score (generate_row 0 False example_draws)
       = state_protection_score (generate_row 1 True relocating_draws)
   \<and> internal_relocation_possible (generate_row 0 False example_draws)
       \<noteq> internal_relocation_possible (generate_row 1 True relocating_draws)
   \<and> integration_score (generate_row 0 False example_draws)
       \<noteq> integration_score (generate_row 1 True relocating_draws)
   \<and> AI_decision (generate_row 0 False example_draws)
       = AI_decision (generate_row 1 True relocating_draws)"
proof -
  let ?r1 = "generate_row 0 False example_draws"
  let ?r2 = "generate_row 1 True relocating_draws"
  have h1: "?r1 \<in> set (generate 1 [] (\<lambda>_. example_draws))"
    by (rule generate_row_in_generate [where ds = "\<lambda>_. example_draws"]) simp_all
  have h2: "?r2 \<in> set (generate 2 [1] (\<lambda>_. relocating_draws))"
    by (rule generate_row_in_generate [where ds = "\<lambda>_. relocating_draws"]) simp_all
  have e: "risk_score ?r1 = risk_score ?r2"
    "credibility_score ?r1 = credibility_score ?r2"
    "nexus_established ?r1 = nexus_established ?r2"
    "state_protection_score ?r1 = state_protection_score ?r2"
    by (simp_all add: generate_row_sel relocating_draws_def example_draws_def)
  have d: "internal_relocation_possible ?r1 \<noteq> internal_relocation_possible ?r2"
    "integration_score ?r1 \<noteq> integration_score ?r2"
    by (simp_all add: generate_row_def Let_def relocating_draws_def example_draws_def clip_def
          integration_raw_def trauma_base_def trauma_penalty_def)
  from AI_decision_ignores_other_fields [OF h1 h2 e] h1 h2 e d show ?thesis
    by blast
qed

subsection \<open>Scores\<close>

text \<open>
  Claim C3.  For every row, \<open>credibility_score\<close>, \<open>risk_score\<close>, \<open>integration_score\<close>
  and \<open>state_protection_score\<close> lie in \<open>[0, 1]\<close>.  \<open>risk_score\<close> is \<open>risk_score_uncapped\<close>
  clipped to \<open>[0, 1]\<close>: 0 when the uncapped score is below 0, 1 when it is above 1, and the
  uncapped score itself in between.  \<open>risk_score_uncapped\<close> is not bounded by 0 and 1: the
  500-row table of the script has rows with it above 1 and rows with it below 0, for noise
  draws within eleven standard deviations.
\<close>

theorem scores_in_unit_interval:
  "(\<forall>r \<in> set (generate n reviewed_idx ds).
       0 \<le> credibility_score r \<and> credibility_score r \<le> 1
     \<and> 0 \<le> risk_score r \<and> risk_score r \<le> 1
     \<and> 0 \<le> integration_score r \<and> integration_score r \<le> 1
     \<and> 0 \<le> state_protection_score r \<and> state_protection_score r \<le> 1
     \<and> risk_score r = min (max (risk_score_uncapped r) 0) 1
     \<and> (risk_score_uncapped r < 0 \<longrightarrow> risk_score r = 0)
     \<and> (0 \<le> risk_score_uncapped r \<and> risk_score_uncapped r \<le> 1
          \<longrightarrow> risk_score r = risk_score_uncapped r)
     \<and> (1 < risk_score_uncapped r \<longrightarrow> risk_score r = 1))
   \<and> (\<exists>js ds'. (\<forall>i. \<bar>draw_noise (ds' i)\<bar> \<le> 0.55)
         \<and> (\<exists>r \<in> set (dataset js ds'). 1 < risk_score_uncapped r \<and> risk_score r = 1))
   \<and> (\<exists>js ds'. (\<forall>i. \<bar>draw_noise (ds' i)\<bar> \<le> 0.55)
         \<and> (\<exists>r \<in> set (dataset js ds'). risk_score_uncapped r < 0 \<and> risk_score r = 0))"
proof (intro conjI ballI)
  fix r assume "r \<in> set (generate n reviewed_idx ds)"
  then obtain i where
    r: "r = generate_row i (human_reviewed_col n reviewed_idx ! i) (ds i)"
    by (rule in_generateE)
  show "0 \<le> credibility_score r" "credibility_score r \<le> 1"
    unfolding r generate_row_sel using clip_bounds [of 0 1] by simp_all
  show "0 \<le> risk_score r" "risk_score r \<le> 1"
    unfolding r generate_row_sel(9) using clip_bounds [of 0 1] by simp_all
  show "0 \<le> integration_score r" "integration_score r \<le> 1"
    unfolding r generate_row_sel(10) using clip_bounds [of 0 1] by simp_all
  have "0.05 \<le> state_protection_score r"
    unfolding r generate_row_sel using clip_bounds [of "0.05" 1] by simp
  then show "0 \<le> state_protection_score r" by simp
  show "state_protection_score r \<le> 1"
    unfolding r generate_row_sel using clip_bounds [of "0.05" 1] by simp
  show c: "risk_score r = min (max (risk_score_uncapped r) 0) 1"
    unfolding r by (simp add: generate_row_sel(9) clip_def)
  show "risk_score_uncapped r < 0 \<longrightarrow> risk_score r = 0"
    unfolding c by simp
  show "0 \<le> risk_score_uncapped r \<and> risk_score_uncapped r \<le> 1
      \<longrightarrow> risk_score r = risk_score_uncapped r"
    unfolding c by simp
  show "1 < risk_score_uncapped r \<longrightarrow> risk_score r = 1"
    unfolding c by simp
next
  obtain rv where row: "dataset no_exchange example_table ! 0
      = generate_row 0 rv (example_table 0)"
    and mem: "dataset no_exchange example_table ! 0 \<in> set (dataset no_exchange example_table)"
    using nth_dataset_row by blast
  have "1 < risk_score_uncapped (dataset no_exchange example_table ! 0)"
    "risk_score (dataset no_exchange example_table ! 0) = 1"
    unfolding row example_table_def by (simp_all add: example_row_values)
  moreover have "\<forall>i. \<bar>draw_noise (example_table i)\<bar> \<le> 0.55"
    by (simp add: example_table_def example_draws_def)
  ultimately show "\<exists>js ds'. (\<forall>i. \<bar>draw_noise (ds' i)\<bar> \<le> 0.55)
         \<and> (\<exists>r \<in> set (dataset js ds'). 1 < risk_score_uncapped r \<and> risk_score r = 1)"
    using mem by blast
next
  obtain rv where row: "dataset no_exchange low_risk_table ! 0
      = generate_row 0 rv (low_risk_table 0)"
    and mem: "dataset no_exchange low_risk_table ! 0 \<in> set (dataset no_exchange low_risk_table)"
    using nth_dataset_row by blast
  have "risk_score_uncapped (dataset no_exchange low_risk_table ! 0) < 0"
    "risk_score (dataset no_exchange low_risk_table ! 0) = 0"
    unfolding row low_risk_table_def
    by (simp_all add: generate_row_sel low_risk_draws_def example_draws_def raw_risk_def
          clip_def)
  moreover have "\<forall>i. \<bar>draw_noise (low_risk_table i)\<bar> \<le> 0.55"
    by (simp add: low_risk_table_def low_risk_draws_def example_draws_def)
  ultimately show "\<exists>js ds'. (\<forall>i. \<bar>draw_noise (ds' i)\<bar> \<le> 0.55)
         \<and> (\<exists>r \<in> set (dataset js ds'). risk_score_uncapped r < 0 \<and> risk_score r = 0)"
    using mem by blast
qed

theorem scores_in_unit_interval_witness:
  "generate_row 0 False example_draws \<in> set (generate 1 [] (\<lambda>_. example_draws))
   \<and> risk_score_uncapped (generate_row 0 False example_draws) = 1.10
   \<and> risk_score (generate_row 0 False example_draws) = 1
   \<and> 0 \<le> integration_score (generate_row 0 False example_draws)
   \<and> integration_score (generate_row 0 False example_draws) \<le> 1"
proof -
  have h: "generate_row 0 False example_draws \<in> set (generate 1 [] (\<lambda>_. example_draws))"
    by (rule generate_row_in_generate [where ds = "\<lambda>_. example_draws"]) simp_all
  from scores_in_unit_interval [of 1 "[]" "\<lambda>_. example_draws"] h show ?thesis
    by (simp add: example_row_values)
qed

text \<open>
  Claim C4.  The rate of the Bernoulli draw of \<open>reported_trauma\<close> is \<open>trauma_base\<close> of the
  row's country and persecution type: 0.65 for Syria, Afghanistan, Eritrea and Somalia and
  0.40 otherwise, raised by 0.15 and capped at 0.85 for sexual violence and detention.  For
  Syria and sexual violence the rate is 0.80.
\<close>

theorem trauma_rate:
  "(\<forall>i<n. reported_trauma (generate n reviewed_idx ds ! i)
        = draw_trauma (ds i)
            (trauma_base (country_of_origin (generate n reviewed_idx ds ! i))
               (persecution_type (generate n reviewed_idx ds ! i))))
   \<and> trauma_base c p
        = (let base = (if c \<in> {Syria, Afghanistan, Eritrea, Somalia} then 0.65 else 0.40)
           in if p \<in> {Sexual_violence, Detention} then min (base + 0.15) 0.85 else base)
   \<and> trauma_base c p
        = (if c \<in> {Syria, Afghanistan, Eritrea, Somalia}
           then (if p \<in> {Sexual_violence, Detention} then 0.80 else 0.65)
           else (if p \<in> {Sexual_violence, Detention} then 0.55 else 0.40))
   \<and> trauma_base Syria Sexual_violence = 0.80"
proof (intro conjI allI impI)
  fix i assume "i < n"
  then show "reported_trauma (generate n reviewed_idx ds ! i)
        = draw_trauma (ds i)
            (trauma_base (country_of_origin (generate n reviewed_idx ds ! i))
               (persecution_type (generate n reviewed_idx ds ! i)))"
    by (simp add: nth_generate generate_row_sel)
next
  show "trauma_base c p
        = (let base = (if c \<in> {Syria, Afghanistan, Eritrea, Somalia} then 0.65 else 0.40)
           in if p \<in> {Sexual_violence, Detention} then min (base + 0.15) 0.85 else base)"
    by (simp add: trauma_base_def)
next
  show "trauma_base c p
        = (if c \<in> {Syria, Afghanistan, Eritrea, Somalia}
           then (if p \<in> {Sexual_violence, Detention} then 0.80 else 0.65)
           else (if p \<in> {Sexual_violence, Detention} then 0.55 else 0.40))"
    by (simp add: trauma_base_def)
next
  show "trauma_base Syria Sexual_violence = 0.80"
    by (simp add: trauma_base_def)
qed

theorem trauma_rate_witness:
  "(0::nat) < 1
   \<and> country_of_origin (generate 1 [] (\<lambda>_. example_draws) ! 0) = Syria
   \<and> persecution_type (generate 1 [] (\<lambda>_. example_draws) ! 0) = Sexual_violence
   \<and> reported_trauma (generate 1 [] (\<lambda>_. example_draws) ! 0)
       = draw_trauma example_draws 0.80"
proof -
  have v: "country_of_origin (generate 1 [] (\<lambda>_. example_draws) ! 0) = Syria"
    "persecution_type (generate 1 [] (\<lambda>_. example_draws) ! 0) = Sexual_violence"
    by (simp_all add: nth_generate generate_row_sel example_draws_def)
  note t = trauma_rate [of 1 "[]" "\<lambda>_. example_draws" Syria Sexual_violence]
  from t have "reported_trauma (generate 1 [] (\<lambda>_. example_draws) ! 0)
       = draw_trauma example_draws
           (trauma_base (country_of_origin (generate 1 [] (\<lambda>_. example_draws) ! 0))
              (persecution_type (generate 1 [] (\<lambda>_. example_draws) ! 0)))"
    by simp
  moreover from t have "trauma_base Syria Sexual_violence = 0.80"
    by blast
  ultimately have "reported_trauma (generate 1 [] (\<lambda>_. example_draws) ! 0)
       = draw_trauma example_draws 0.80"
    by (simp only: v)
  with v show ?thesis
    by simp
qed

subsection \<open>Oversight\<close>

text \<open>
  Claim C6.  The sample of line 172 has \<open>floor(0.10 * n)\<close> labels of the index and no label
  twice, and exactly \<open>floor(0.10 * n)\<close> rows of the table have \<open>human_reviewed = True\<close>: the
  rows whose label is in the sample.  Every other row has \<open>human_reviewed = False\<close>.  The
  sample is uniform: the shuffle has \<open>n!\<close> runs, and every set \<open>S\<close> of \<open>floor(0.10 * n)\<close>
  labels is the sample of the same number of them, \<open>k! * (n - k)!\<close> for \<open>k\<close> the size of \<open>S\<close>.
\<close>

theorem review_subset_size:
  "length (draw_reviewed_idx n js) = nat \<lfloor>0.10 * real n\<rfloor>
   \<and> distinct (draw_reviewed_idx n js)
   \<and> set (draw_reviewed_idx n js) \<subseteq> {0..<n}
   \<and> length (filter human_reviewed (pipeline n js ds)) = nat \<lfloor>0.10 * real n\<rfloor>
   \<and> (\<forall>i<n. human_reviewed (pipeline n js ds ! i) \<longleftrightarrow> i \<in> set (draw_reviewed_idx n js))
   \<and> card (shuffle_draws n) = fact n
   \<and> (\<forall>S. S \<subseteq> {0..<n} \<and> card S = nat \<lfloor>0.10 * real n\<rfloor> \<longrightarrow>
         card {js' \<in> shuffle_draws n. set (draw_reviewed_idx n js') = S}
           = fact (card S) * fact (n - card S))"
proof (intro conjI allI impI)
  show len: "length (draw_reviewed_idx n js) = nat \<lfloor>0.10 * real n\<rfloor>"
    by (simp add: draw_reviewed_idx_props review_size_def)
  show dist: "distinct (draw_reviewed_idx n js)"
    by (rule draw_reviewed_idx_props)
  show sub: "set (draw_reviewed_idx n js) \<subseteq> {0..<n}"
    by (rule draw_reviewed_idx_props)
  from sub have "set (draw_reviewed_idx n js) \<inter> {0..<n} = set (draw_reviewed_idx n js)"
    by blast
  then have "length (filter human_reviewed (pipeline n js ds))
      = card (set (draw_reviewed_idx n js))"
    by (simp add: pipeline_def reviewed_rows_count)
  also have "\<dots> = length (draw_reviewed_idx n js)"
    using dist by (rule distinct_card)
  finally show "length (filter human_reviewed (pipeline n js ds)) = nat \<lfloor>0.10 * real n\<rfloor>"
    by (simp only: len)
  show "card (shuffle_draws n) = fact n"
    by (rule card_shuffle_draws)
next
  fix i assume "i < n"
  then show "human_reviewed (pipeline n js ds ! i) \<longleftrightarrow> i \<in> set (draw_reviewed_idx n js)"
    by (simp add: pipeline_def nth_generate generate_row_sel human_reviewed_col_nth)
next
  fix S assume S: "S \<subseteq> {0..<n} \<and> card S = nat \<lfloor>0.10 * real n\<rfloor>"
  then have "card S = review_size n" by (simp add: review_size_def)
  then have "{js' \<in> shuffle_draws n. set (draw_reviewed_idx n js') = S}
      = {js' \<in> shuffle_draws n. set (choice_without_replacement n (card S) js') = S}"
    by (simp add: draw_reviewed_idx_def)
  moreover from S have "card {js' \<in> shuffle_draws n.
        set (choice_without_replacement n (card S) js') = S}
      = fact (card S) * fact (n - card S)"
    by (intro choice_uniform) simp_all
  ultimately show "card {js' \<in> shuffle_draws n. set (draw_reviewed_idx n js') = S}
      = fact (card S) * fact (n - card S)"
    by simp
qed

theorem review_subset_size_witness:
  "draw_reviewed_idx 10 exchange_with_first = [1]
   \<and> length (filter human_reviewed (pipeline 10 exchange_with_first example_table)) = 1
   \<and> human_reviewed (pipeline 10 exchange_with_first example_table ! 1)
   \<and> \<not> human_reviewed (pipeline 10 exchange_with_first example_table ! 0)
   \<and> {3} \<subseteq> {0..<10::nat} \<and> card {3::nat} = nat \<lfloor>0.10 * real 10\<rfloor>
   \<and> card {js' \<in> shuffle_draws 10. set (draw_reviewed_idx 10 js') = {3}} = fact 1 * fact 9"
proof -
  have "shuffle 9 exchange_with_first [0..<10] = [1, 2, 3, 4, 5, 6, 7, 8, 9, 0]"
    by code_simp
  then have idx: "draw_reviewed_idx 10 exchange_with_first = [1]"
    by (simp add: draw_reviewed_idx_def choice_without_replacement_def permutation_def
          review_size_def)
  have S: "{3} \<subseteq> {0..<10::nat} \<and> card {3::nat} = nat \<lfloor>0.10 * real 10\<rfloor>"
    by simp
  note t = review_subset_size [of 10 exchange_with_first example_table]
  from t have "length (filter human_reviewed (pipeline 10 exchange_with_first example_table))
      = nat \<lfloor>0.10 * real 10\<rfloor>"
    by blast
  then have count: "length (filter human_reviewed (pipeline 10 exchange_with_first example_table))
      = 1"
    by simp
  from t have "\<forall>i<10. human_reviewed (pipeline 10 exchange_with_first example_table ! i)
      \<longleftrightarrow> i \<in> set (draw_reviewed_idx 10 exchange_with_first)"
    by blast
  then have marks: "human_reviewed (pipeline 10 exchange_with_first example_table ! 1)"
    "\<not> human_reviewed (pipeline 10 exchange_with_first example_table ! 0)"
    by (simp_all add: idx)
  from t S have "card {js' \<in> shuffle_draws 10. set (draw_reviewed_idx 10 js') = {3}}
      = fact (card {3::nat}) * fact (10 - card {3::nat})"
    by blast
  then have unif: "card {js' \<in> shuffle_draws 10. set (draw_reviewed_idx 10 js') = {3}}
      = fact 1 * fact 9"
    by simp
  from idx count marks S unif show ?thesis
    by blast
qed

text \<open>
  Claim C8.  For every row, \<open>human_override = True\<close> implies
  \<open>human_reviewed = True\<close>.
\<close>

theorem override_implies_reviewed:
  assumes "r \<in> set (generate n reviewed_idx ds)"
  shows "human_override r = True \<longrightarrow> human_reviewed r = True"
proof -
  from assms obtain i where
    r: "r = generate_row i (human_reviewed_col n reviewed_idx ! i) (ds i)"
    by (rule in_generateE)
  show ?thesis
    unfolding r by (simp add: generate_row_sel flip_mask_def)
qed

theorem override_implies_reviewed_witness:
  "generate_row 1 True example_draws \<in> set (generate 2 [1] (\<lambda>_. example_draws))
   \<and> human_override (generate_row 1 True example_draws) = True
   \<and> human_reviewed (generate_row 1 True example_draws) = True"
proof -
  have h: "generate_row 1 True example_draws \<in> set (generate 2 [1] (\<lambda>_. example_draws))"
    by (rule generate_row_in_generate [where ds = "\<lambda>_. example_draws"]) simp_all
  have v: "human_override (generate_row 1 True example_draws) = True"
    by (simp add: example_row_values)
  from override_implies_reviewed [OF h] h v show ?thesis
    by simp
qed

text \<open>
  Claim C2.  For every row, \<open>final_decision\<close> equals \<open>AI_decision\<close> when
  \<open>human_override\<close> is false and is the other decision when it is true: it is a function
  of \<open>AI_decision\<close> and \<open>human_override\<close> alone.
\<close>

theorem final_decision_flip:
  assumes "r \<in> set (generate n reviewed_idx ds)"
  shows "(\<not> human_override r \<longrightarrow> final_decision r = AI_decision r)
       \<and> (human_override r \<and> AI_decision r = Approve \<longrightarrow> final_decision r = Deny)
       \<and> (human_override r \<and> AI_decision r = Deny \<longrightarrow> final_decision r = Approve)"
proof -
  from assms obtain i where
    r: "r = generate_row i (human_reviewed_col n reviewed_idx ! i) (ds i)"
    by (rule in_generateE)
  have "final_decision r = final_decision_of (AI_decision r) (human_override r)"
    unfolding r by (rule generate_row_sel)
  then show ?thesis
    by (simp add: final_decision_of_def flip_def)
qed

theorem final_decision_flip_witness:
  "generate_row 1 True example_draws \<in> set (generate 2 [1] (\<lambda>_. example_draws))
   \<and> human_override (generate_row 1 True example_draws)
   \<and> AI_decision (generate_row 1 True example_draws) = Approve
   \<and> final_decision (generate_row 1 True example_draws) = Deny"
proof -
  have h: "generate_row 1 True example_draws \<in> set (generate 2 [1] (\<lambda>_. example_draws))"
    by (rule generate_row_in_generate [where ds = "\<lambda>_. example_draws"]) simp_all
  have v: "human_override (generate_row 1 True example_draws)"
    "AI_decision (generate_row 1 True example_draws) = Approve"
    by (simp_all add: example_row_values)
  from final_decision_flip [OF h] h v show ?thesis
    by simp
qed

subsection \<open>Appeals and bias audit\<close>

text \<open>
  Claim C7.  For every row, \<open>appeal_outcome\<close> is \<open>N/A\<close> exactly when \<open>appealed\<close> is
  false; a row that appealed has the outcome \<open>overturned\<close> or \<open>upheld\<close>.
\<close>

theorem appeal_outcome_na_iff:
  assumes "r \<in> set (generate n reviewed_idx ds)"
  shows "(appeal_outcome r = Not_applicable \<longleftrightarrow> appealed r = False)
       \<and> (appealed r = True \<longrightarrow> appeal_outcome r = Overturned \<or> appeal_outcome r = Upheld)"
proof -
  from assms obtain i where
    r: "r = generate_row i (human_reviewed_col n reviewed_idx ! i) (ds i)"
    by (rule in_generateE)
  have "appeal_outcome r = appeal_outcomes (appealed r) (draw_appeal_outcome (ds i))"
    unfolding r by (rule generate_row_sel)
  then show ?thesis
    by (simp add: appeal_outcomes_def)
qed

theorem appeal_outcome_na_iff_witness:
  "generate_row 1 True example_draws \<in> set (generate 2 [1] (\<lambda>_. example_draws))
   \<and> appealed (generate_row 1 True example_draws) = True
   \<and> appeal_outcome (generate_row 1 True example_draws) = Upheld"
proof -
  have h: "generate_row 1 True example_draws \<in> set (generate 2 [1] (\<lambda>_. example_draws))"
    by (rule generate_row_in_generate [where ds = "\<lambda>_. example_draws"]) simp_all
  have v: "appealed (generate_row 1 True example_draws) = True"
    "appeal_outcome (generate_row 1 True example_draws) \<noteq> Overturned"
    by (simp_all add: example_row_values)
  from appeal_outcome_na_iff [OF h] h v show ?thesis
    by simp
qed

text \<open>
  Claim C9.  For every row, \<open>bias_flag\<close> is the categorical draw with the weights chosen by
  the first condition that holds: reported trauma with credibility below 0.5 gives
  \<open>[0.40, 0.40, 0.20]\<close>; else an established nexus with final decision \<open>deny\<close> gives
  \<open>[0.50, 0.35, 0.15]\<close>; else \<open>[0.80, 0.15, 0.05]\<close>.  A row under the first condition gets
  the first weights and neither of the other two.
\<close>

theorem bias_flag_weights:
  "(\<forall>i<n. bias_flag (generate n reviewed_idx ds ! i)
        = draw_bias (ds i)
            (bias_weights (reported_trauma (generate n reviewed_idx ds ! i))
               (credibility_score (generate n reviewed_idx ds ! i))
               (nexus_established (generate n reviewed_idx ds ! i))
               (final_decision (generate n reviewed_idx ds ! i))))
   \<and> bias_weights trauma cred nexus final
        = (if trauma \<and> cred < 0.5 then [0.40, 0.40, 0.20]
           else if nexus \<and> final = Deny then [0.50, 0.35, 0.15]
           else [0.80, 0.15, 0.05])
   \<and> (trauma \<and> cred < 0.5 \<longrightarrow>
         bias_weights trauma cred nexus final = [0.40, 0.40, 0.20]
       \<and> bias_weights trauma cred nexus final \<noteq> [0.50, 0.35, 0.15]
       \<and> bias_weights trauma cred nexus final \<noteq> [0.80, 0.15, 0.05])"
proof (intro conjI allI impI)
  fix i assume "i < n"
  then show "bias_flag (generate n reviewed_idx ds ! i)
        = draw_bias (ds i)
            (bias_weights (reported_trauma (generate n reviewed_idx ds ! i))
               (credibility_score (generate n reviewed_idx ds ! i))
               (nexus_established (generate n reviewed_idx ds ! i))
               (final_decision (generate n reviewed_idx ds ! i)))"
    by (simp only: nth_generate generate_row_sel(17))
next
  show "bias_weights trauma cred nexus final
        = (if trauma \<and> cred < 0.5 then [0.40, 0.40, 0.20]
           else if nexus \<and> final = Deny then [0.50, 0.35, 0.15]
           else [0.80, 0.15, 0.05])"
    by (simp only: bias_weights_def)
next
  assume c1: "trauma \<and> cred < 0.5"
  then show w1: "bias_weights trauma cred nexus final = [0.40, 0.40, 0.20]"
    by (simp add: bias_weights_def)
  show "bias_weights trauma cred nexus final \<noteq> [0.50, 0.35, 0.15]"
    unfolding w1 by simp
  show "bias_weights trauma cred nexus final \<noteq> [0.80, 0.15, 0.05]"
    unfolding w1 by simp
qed

theorem bias_flag_weights_witness:
  "(0::nat) < 2
   \<and> reported_trauma (generate 2 [1] (\<lambda>_. low_credibility_draws) ! 0)
   \<and> credibility_score (generate 2 [1] (\<lambda>_. low_credibility_draws) ! 0) < 0.5
   \<and> nexus_established (generate 2 [1] (\<lambda>_. low_credibility_draws) ! 0)
   \<and> final_decision (generate 2 [1] (\<lambda>_. low_credibility_draws) ! 0) = Deny
   \<and> bias_flag (generate 2 [1] (\<lambda>_. low_credibility_draws) ! 0)
       = draw_bias low_credibility_draws [0.40, 0.40, 0.20]"
proof -
  let ?r = "generate 2 [1] (\<lambda>_. low_credibility_draws) ! 0"
  have r: "?r = generate_row 0 False low_credibility_draws"
    by (simp add: nth_generate human_reviewed_col_nth)
  have v: "reported_trauma ?r" "credibility_score ?r < 0.5"
    "nexus_established ?r" "final_decision ?r = Deny"
    unfolding r
    by (simp_all add: generate_row_sel low_credibility_draws_def example_draws_def clip_def
          raw_risk_def trauma_base_def trauma_penalty_def flip_mask_def AI_decision_of_def
          approve_score_def final_decision_of_def flip_def)
  note t = bias_flag_weights [of 2 "[1]" "\<lambda>_. low_credibility_draws" "reported_trauma ?r"
      "credibility_score ?r" "nexus_established ?r" "final_decision ?r"]
  from t v have w: "bias_weights (reported_trauma ?r) (credibility_score ?r)
      (nexus_established ?r) (final_decision ?r) = [0.40, 0.40, 0.20]"
    by blast
  from t have "\<forall>i<2. bias_flag (generate 2 [1] (\<lambda>_. low_credibility_draws) ! i)
      = draw_bias low_credibility_draws
          (bias_weights (reported_trauma (generate 2 [1] (\<lambda>_. low_credibility_draws) ! i))
             (credibility_score (generate 2 [1] (\<lambda>_. low_credibility_draws) ! i))
             (nexus_established (generate 2 [1] (\<lambda>_. low_credibility_draws) ! i))
             (final_decision (generate 2 [1] (\<lambda>_. low_credibility_draws) ! i)))"
    by (rule conjunct1)
  then have "bias_flag ?r
      = draw_bias low_credibility_draws
          (bias_weights (reported_trauma ?r) (credibility_score ?r) (nexus_established ?r)
             (final_decision ?r))"
    by simp
  then have "bias_flag ?r = draw_bias low_credibility_draws [0.40, 0.40, 0.20]"
    by (simp only: w)
  with v show ?thesis
    by simp
qed

end
